theory Spec2Isabelle
  imports Complex_Main "HOL-Library.Word"
begin

section \<open>Categorical DQN (ch07/07\_dqn\_categorical.py)\<close>

text \<open>
  Numbers: Python integers are \<open>int\<close> (or \<open>nat\<close> where the source only counts up from
  zero), and every floating-point quantity (rewards, network outputs, the support, the
  exploration rate, the loss) is a \<open>real\<close>: arithmetic is exact, rounding is not
  modelled. Every exception the source can raise is a value of \<open>error\<close>.
\<close>

subsection \<open>Module constants\<close>

definition MEAN_REWARD_BOUND :: real where "MEAN_REWARD_BOUND = 195 / 10"
definition GAMMA :: real where "GAMMA = 99 / 100"
definition BATCH_SIZE :: nat where "BATCH_SIZE = 32"
definition REPLAY_SIZE :: nat where "REPLAY_SIZE = 10000"
definition SYNC_TARGET_FRAMES :: int where "SYNC_TARGET_FRAMES = 1000"
definition REPLAY_START_SIZE :: nat where "REPLAY_START_SIZE = 10000"

definition EPSILON_DECAY_LAST_FRAME :: int where "EPSILON_DECAY_LAST_FRAME = 10 ^ 5"
definition EPSILON_START :: real where "EPSILON_START = 1"
definition EPSILON_FINAL :: real where "EPSILON_FINAL = 2 / 100"

definition Vmax :: int where "Vmax = 10"
definition Vmin :: int where "Vmin = - 10"
definition N_ATOMS :: nat where "N_ATOMS = 51"

datatype error = ShapeError | IndexError | ValueError | ZeroDivisionError

subsection \<open>Transition records and \<open>unpack_batch\<close>\<close>

text \<open>
  A transition is the named tuple the experience source yields; \<open>last_state\<close> is
  \<open>None\<close> when the episode ended on this step. Observations are kept abstract.
\<close>

record 'obs experience =
  state :: 'obs
  action :: int
  reward :: real
  last_state :: "'obs option"

text \<open>
  The \<open>for exp in batch\<close> loop of \<open>unpack_batch\<close>: five lists, each appended to once per
  record, in the order of the source (the loop variable is \<open>e\<close> here, \<open>exp\<close> being the
  exponential function).
\<close>

fun unpack_loop ::
  "'obs experience list \<Rightarrow> 'obs list \<times> int list \<times> real list \<times> bool list \<times> 'obs list
     \<Rightarrow> 'obs list \<times> int list \<times> real list \<times> bool list \<times> 'obs list" where
  "unpack_loop [] acc = acc"
| "unpack_loop (e # rest) (states, actions, rewards, dones, last_states) =
     unpack_loop rest
       (states @ [state e],
        actions @ [action e],
        rewards @ [reward e],
        dones @ [last_state e = None],
        last_states @ [case last_state e of None \<Rightarrow> state e | Some s \<Rightarrow> s])"

text \<open>
  The returned arrays are the lists themselves, indexed along their first axis; the
  done flags are stored as \<open>uint8\<close> (\<open>True\<close> is 1, \<open>False\<close> is 0).
\<close>

definition unpack_batch ::
  "'obs experience list \<Rightarrow> 'obs list \<times> int list \<times> real list \<times> 8 word list \<times> 'obs list" where
  "unpack_batch batch =
     (case unpack_loop batch ([], [], [], [], []) of
        (states, actions, rewards, dones, last_states) \<Rightarrow>
          (states, actions, rewards, map of_bool dones, last_states))"

subsection \<open>Tensors\<close>

text \<open>
  A tensor is its shape and its elements in row-major order, as the library stores a
  contiguous tensor. A well-formed tensor holds as many elements as its shape says.
  Row \<open>i\<close> of width \<open>c\<close> of a flat list is \<open>chunk c i\<close>.
\<close>

record tensor =
  shape :: "nat list"
  data :: "real list"

definition numel :: "tensor \<Rightarrow> nat" where
  "numel t = prod_list (shape t)"

definition wf_tensor :: "tensor \<Rightarrow> bool" where
  "wf_tensor t \<longleftrightarrow> length (data t) = numel t"

definition chunk :: "nat \<Rightarrow> nat \<Rightarrow> 'a list \<Rightarrow> 'a list" where
  "chunk c i xs = take c (drop (i * c) xs)"

text \<open>
  \<open>t.view(d1, ..., dk)\<close>: the same elements under a new shape. A dimension given as
  \<open>-1\<close> (\<open>None\<close> here) is inferred from the number of elements; at most one may be, and
  the sizes must multiply to the number of elements.
\<close>

definition view_shape :: "nat option list \<Rightarrow> nat \<Rightarrow> error + nat list" where
  "view_shape dims n =
     (let known = prod_list (map (case_option 1 id) dims)
      in if 1 < length (filter (\<lambda>d. d = None) dims) then Inl ShapeError
         else if None \<in> set dims then
           (if known = 0 \<or> n mod known \<noteq> 0 then Inl ShapeError
            else Inr (map (case_option (n div known) id) dims))
         else if known = n then Inr (map (case_option (n div known) id) dims)
         else Inl ShapeError)"

definition view :: "nat option list \<Rightarrow> tensor \<Rightarrow> error + tensor" where
  "view dims t =
     (case view_shape dims (numel t) of
        Inl e \<Rightarrow> Inl e
      | Inr s \<Rightarrow> Inr (t\<lparr>shape := s\<rparr>))"

subsection \<open>\<open>CategoricalDQN\<close>: shapes\<close>

text \<open>
  The layers of the network, as far as shapes go. A convolution (no padding, no
  dilation) takes a 4-dimensional input whose channel count is its \<open>in_channels\<close> and
  whose height and width are at least the kernel size; a linear layer takes an input
  whose last dimension is its \<open>in_features\<close>; \<open>ReLU\<close> keeps the shape.
\<close>

datatype layer =
  Conv2d nat nat nat nat
| ReLU
| Linear nat nat

fun layer_shape :: "layer \<Rightarrow> nat list \<Rightarrow> error + nat list" where
  "layer_shape (Conv2d in_channels out_channels kernel_size stride) s =
     (case s of
        [b, c, h, w] \<Rightarrow>
          if c \<noteq> in_channels \<or> h < kernel_size \<or> w < kernel_size \<or> stride = 0
          then Inl ShapeError
          else Inr [b, out_channels,
                    (h - kernel_size) div stride + 1, (w - kernel_size) div stride + 1]
      | _ \<Rightarrow> Inl ShapeError)"
| "layer_shape ReLU s = Inr s"
| "layer_shape (Linear in_features out_features) s =
     (if s \<noteq> [] \<and> last s = in_features then Inr (butlast s @ [out_features])
      else Inl ShapeError)"

fun Sequential_shape :: "layer list \<Rightarrow> nat list \<Rightarrow> error + nat list" where
  "Sequential_shape [] s = Inr s"
| "Sequential_shape (l # ls) s =
     (case layer_shape l s of Inl e \<Rightarrow> Inl e | Inr s' \<Rightarrow> Sequential_shape ls s')"

record CategoricalDQN =
  conv :: "layer list"
  fc :: "layer list"

definition get_conv_out :: "layer list \<Rightarrow> nat list \<Rightarrow> error + nat" where
  "get_conv_out cv shp =
     (case Sequential_shape cv (1 # shp) of
        Inl e \<Rightarrow> Inl e
      | Inr out \<Rightarrow> Inr (prod_list out))"

definition CategoricalDQN_init :: "nat list \<Rightarrow> nat \<Rightarrow> error + CategoricalDQN" where
  "CategoricalDQN_init input_shape n_actions =
     (case input_shape of
        [] \<Rightarrow> Inl IndexError
      | c # _ \<Rightarrow>
          (let cv = [Conv2d c 32 8 4, ReLU, Conv2d 32 64 4 2, ReLU, Conv2d 64 64 3 1, ReLU]
           in case get_conv_out cv input_shape of
                Inl e \<Rightarrow> Inl e
              | Inr conv_out_size \<Rightarrow>
                  Inr \<lparr>conv = cv,
                       fc = [Linear conv_out_size 512, ReLU,
                             Linear 512 (n_actions * N_ATOMS)]\<rparr>))"

text \<open>
  The shape of \<open>forward(x)\<close> from the shape of \<open>x\<close>; \<open>x.float() / 256\<close> keeps the shape.
\<close>

definition forward_shape :: "CategoricalDQN \<Rightarrow> nat list \<Rightarrow> error + nat list" where
  "forward_shape m x =
     (case x of
        [] \<Rightarrow> Inl IndexError
      | batch_size # _ \<Rightarrow>
          (case Sequential_shape (conv m) x of
             Inl e \<Rightarrow> Inl e
           | Inr c \<Rightarrow>
               (case view_shape [Some batch_size, None] (prod_list c) of
                  Inl e \<Rightarrow> Inl e
                | Inr conv_out \<Rightarrow>
                    (case Sequential_shape (fc m) conv_out of
                       Inl e \<Rightarrow> Inl e
                     | Inr fc_out \<Rightarrow>
                         view_shape [Some batch_size, None, Some N_ATOMS]
                           (prod_list fc_out)))))"

subsection \<open>\<open>CategoricalDQN\<close>: values\<close>

text \<open>
  The weights of the layers are not part of the source, so the convolution and
  fully-connected stacks are one parameter \<open>layers\<close>: what
  \<open>self.fc(self.conv(fx).view(batch_size, -1))\<close> returns for the rescaled batch. A batch
  is the list of its observations, each a list of pixel values.
\<close>

definition CategoricalDQN_forward ::
  "(real list list \<Rightarrow> error + tensor) \<Rightarrow> real list list \<Rightarrow> error + tensor" where
  "CategoricalDQN_forward layers x =
     (let batch_size = length x;
          fx = map (map (\<lambda>v. v / 256)) x
      in case layers fx of
           Inl e \<Rightarrow> Inl e
         | Inr fc_out \<Rightarrow> view [Some batch_size, None, Some N_ATOMS] fc_out)"

subsection \<open>\<open>CategoricalQValues\<close>\<close>

text \<open>
  \<open>torch.arange(start, end, step)\<close>: the values \<open>start + i * step\<close> of the half-open
  interval from \<open>start\<close> to \<open>end\<close>, of which there are \<open>\<lceil>(end - start) / step\<rceil>\<close>.
\<close>

definition arange :: "real \<Rightarrow> real \<Rightarrow> real \<Rightarrow> error + real list" where
  "arange start stop step =
     (if step = 0 \<or> (0 < step \<and> stop < start) \<or> (step < 0 \<and> start < stop)
      then Inl ValueError
      else Inr (map (\<lambda>i. start + real i * step) [0..<nat \<lceil>(stop - start) / step\<rceil>]))"

definition supports_buffer :: "error + real list" where
  "supports_buffer =
     arange (real_of_int Vmin) (real_of_int Vmax)
       (real_of_int (Vmax - Vmin) / real (N_ATOMS - 1))"

record 'x CategoricalQValues =
  cat_net :: "'x \<Rightarrow> error + tensor"
  supports :: "real list"

definition CategoricalQValues_init ::
  "('x \<Rightarrow> error + tensor) \<Rightarrow> error + 'x CategoricalQValues" where
  "CategoricalQValues_init net =
     (case supports_buffer of
        Inl e \<Rightarrow> Inl e
      | Inr s \<Rightarrow> Inr \<lparr>cat_net = net, supports = s\<rparr>)"

text \<open>
  \<open>nn.Softmax()\<close> is built without a dimension; on a 2-dimensional input it normalises
  along dimension 1, each row on its own. \<open>forward\<close> applies it to the result of
  \<open>view(-1, N_ATOMS)\<close> only, which is 2-dimensional, so that is the case given here.
\<close>

definition softmax_row :: "real list \<Rightarrow> real list" where
  "softmax_row xs = map (\<lambda>v. exp v / sum_list (map exp xs)) xs"

definition Softmax :: "tensor \<Rightarrow> error + tensor" where
  "Softmax t =
     (case shape t of
        [r, c] \<Rightarrow>
          Inr (t\<lparr>data := concat (map (\<lambda>i. softmax_row (chunk c i (data t))) [0..<r])\<rparr>)
      | _ \<Rightarrow> Inl ShapeError)"

text \<open>
  \<open>t * s\<close> for a 1-dimensional \<open>s\<close>, with broadcasting along the last dimension of \<open>t\<close>:
  the sizes must be equal, or one of them 1.
\<close>

definition mul_bcast :: "tensor \<Rightarrow> real list \<Rightarrow> error + tensor" where
  "mul_bcast t s =
     (let n = (if shape t = [] then 1 else last (shape t));
          l = length s
      in if shape t \<noteq> [] \<and> l = n then
           Inr (t\<lparr>data := map (\<lambda>k. data t ! k * s ! (k mod n)) [0..<numel t]\<rparr>)
         else if shape t \<noteq> [] \<and> l = 1 then
           Inr (t\<lparr>data := map (\<lambda>k. data t ! k * s ! 0) [0..<numel t]\<rparr>)
         else if n = 1 then
           Inr \<lparr>shape = butlast (shape t) @ [l],
                data = concat (map (\<lambda>k. map (\<lambda>w. data t ! k * w) s) [0..<numel t])\<rparr>
         else Inl ShapeError)"

text \<open>\<open>t.sum(dim=2)\<close>: the tensor needs at least three dimensions.\<close>

definition sum_dim2 :: "tensor \<Rightarrow> error + tensor" where
  "sum_dim2 t =
     (case shape t of
        d0 # d1 # d2 # rest \<Rightarrow>
          (let r = prod_list rest
           in Inr \<lparr>shape = d0 # d1 # rest,
                   data = concat (map (\<lambda>ij. map (\<lambda>j.
                            sum_list (map (\<lambda>k. data t ! ((ij * d2 + k) * r + j)) [0..<d2]))
                            [0..<r]) [0..<d0 * d1])\<rparr>)
      | _ \<Rightarrow> Inl IndexError)"

text \<open>
  \<open>forward\<close>, in two parts: the normalised probabilities \<open>probs\<close>, then their product with
  the support, summed over the atoms.
\<close>

definition CategoricalQValues_probs :: "'x CategoricalQValues \<Rightarrow> 'x \<Rightarrow> error + tensor" where
  "CategoricalQValues_probs m x =
     (case cat_net m x of
        Inl e \<Rightarrow> Inl e
      | Inr cat_out \<Rightarrow>
          (case view [None, Some N_ATOMS] cat_out of
             Inl e \<Rightarrow> Inl e
           | Inr v \<Rightarrow>
               (case Softmax v of
                  Inl e \<Rightarrow> Inl e
                | Inr sm \<Rightarrow> view (map Some (shape cat_out)) sm)))"

definition CategoricalQValues_forward ::
  "'x CategoricalQValues \<Rightarrow> 'x \<Rightarrow> error + tensor" where
  "CategoricalQValues_forward m x =
     (case CategoricalQValues_probs m x of
        Inl e \<Rightarrow> Inl e
      | Inr probs \<Rightarrow>
          (case mul_bcast probs (supports m) of
             Inl e \<Rightarrow> Inl e
           | Inr weights \<Rightarrow> sum_dim2 weights))"

subsection \<open>\<open>calc_loss\<close>\<close>

text \<open>
  The tensor operations of \<open>calc_loss\<close>. The index of \<open>gather\<close> is
  \<open>actions_v.unsqueeze(-1)\<close>, of shape \<open>[len(actions), 1]\<close>; \<open>gather\<close> wants an input of
  as many dimensions as its index, of the same size outside the gathered dimension,
  and every index within the gathered dimension.
\<close>

definition gather1 :: "tensor \<Rightarrow> int list \<Rightarrow> error + tensor" where
  "gather1 t idx =
     (case shape t of
        [b, a] \<Rightarrow>
          if length idx \<noteq> b then Inl ShapeError
          else if \<not> list_all (\<lambda>j. 0 \<le> j \<and> j < int a) idx then Inl IndexError
          else Inr \<lparr>shape = [b, 1],
                    data = map (\<lambda>i. data t ! (i * a + nat (idx ! i))) [0..<b]\<rparr>
      | _ \<Rightarrow> Inl ShapeError)"

definition squeeze_last :: "tensor \<Rightarrow> tensor" where
  "squeeze_last t =
     (if shape t \<noteq> [] \<and> last (shape t) = 1 then t\<lparr>shape := butlast (shape t)\<rparr> else t)"

text \<open>
  \<open>t.max(1)[0]\<close>: the maxima along dimension 1, which must exist and be non-empty.
\<close>

definition max_dim1 :: "tensor \<Rightarrow> error + tensor" where
  "max_dim1 t =
     (case shape t of
        d0 # d1 # rest \<Rightarrow>
          if d1 = 0 then Inl IndexError
          else
            (let r = prod_list rest
             in Inr \<lparr>shape = d0 # rest,
                     data = concat (map (\<lambda>i. map (\<lambda>j.
                              Max (set (map (\<lambda>a. data t ! ((i * d1 + a) * r + j)) [0..<d1])))
                              [0..<r]) [0..<d0])\<rparr>)
      | _ \<Rightarrow> Inl IndexError)"

text \<open>
  \<open>t[done_mask] = 0.0\<close>, \<open>t * GAMMA + rewards_v\<close> and \<open>nn.MSELoss()\<close>, each for operands of
  one and the same shape, which is how \<open>calc_loss\<close> means them; operands of different
  shapes are reported as a shape error. The mean over no elements is not a number.
\<close>

definition masked_zero :: "tensor \<Rightarrow> 8 word list \<Rightarrow> error + tensor" where
  "masked_zero t done_mask =
     (if shape t = [length done_mask]
      then Inr (t\<lparr>data := map (\<lambda>i. if done_mask ! i \<noteq> 0 then 0 else data t ! i)
                            [0..<length done_mask]\<rparr>)
      else Inl ShapeError)"

definition scale_add :: "tensor \<Rightarrow> real \<Rightarrow> real list \<Rightarrow> error + tensor" where
  "scale_add t g r =
     (if shape t = [length r]
      then Inr (t\<lparr>data := map (\<lambda>i. data t ! i * g + r ! i) [0..<length r]\<rparr>)
      else Inl ShapeError)"

definition MSELoss :: "tensor \<Rightarrow> tensor \<Rightarrow> error + real" where
  "MSELoss a b =
     (if shape a \<noteq> shape b then Inl ShapeError
      else if numel a = 0 then Inl ValueError
      else Inr (sum_list (map (\<lambda>i. (data a ! i - data b ! i)\<^sup>2) [0..<numel a])
                / real (numel a)))"

text \<open>
  \<open>calc_loss\<close>, line by line: the value of the action taken, the masked maximum of the
  target network, the target, the loss. Moving the tensors to the GPU changes no
  value, and the \<open>cuda\<close> flag is left out.
\<close>

definition state_action_values ::
  "('obs list \<Rightarrow> error + tensor) \<Rightarrow> 'obs list \<Rightarrow> int list \<Rightarrow> error + tensor" where
  "state_action_values net states_v actions_v =
     (case net states_v of
        Inl e \<Rightarrow> Inl e
      | Inr q \<Rightarrow>
          (case gather1 q actions_v of
             Inl e \<Rightarrow> Inl e
           | Inr g \<Rightarrow> Inr (squeeze_last g)))"

definition next_state_values ::
  "('obs list \<Rightarrow> error + tensor) \<Rightarrow> 'obs list \<Rightarrow> 8 word list \<Rightarrow> error + tensor" where
  "next_state_values tgt_net next_states_v done_mask =
     (case tgt_net next_states_v of
        Inl e \<Rightarrow> Inl e
      | Inr q \<Rightarrow>
          (case max_dim1 q of
             Inl e \<Rightarrow> Inl e
           | Inr m \<Rightarrow> masked_zero m done_mask))"

definition expected_state_action_values ::
  "('obs list \<Rightarrow> error + tensor) \<Rightarrow> 'obs list \<Rightarrow> 8 word list \<Rightarrow> real list
     \<Rightarrow> error + tensor" where
  "expected_state_action_values tgt_net next_states_v done_mask rewards_v =
     (case next_state_values tgt_net next_states_v done_mask of
        Inl e \<Rightarrow> Inl e
      | Inr nsv \<Rightarrow> scale_add nsv GAMMA rewards_v)"

definition calc_loss ::
  "'obs experience list \<Rightarrow> ('obs list \<Rightarrow> error + tensor) \<Rightarrow> ('obs list \<Rightarrow> error + tensor)
     \<Rightarrow> error + real" where
  "calc_loss batch net tgt_net =
     (case unpack_batch batch of
        (states, actions, rewards, dones, next_states) \<Rightarrow>
          (case state_action_values net states actions of
             Inl e \<Rightarrow> Inl e
           | Inr sav \<Rightarrow>
               (case expected_state_action_values tgt_net next_states dones rewards of
                  Inl e \<Rightarrow> Inl e
                | Inr esav \<Rightarrow> MSELoss sav esav)))"

subsection \<open>The training loop\<close>

text \<open>
  The loop of the main program talks to collaborators that are not part of the source:
  the replay buffer and its experience source, the clock, the optimizer, the metrics
  writer. What they return in one iteration is a \<open>tick\<close>: the length of the buffer
  after \<open>buffer.populate(1)\<close>, the result of \<open>exp_source.pop_total_rewards()\<close>, the two
  readings of \<open>time.time()\<close>, the batch \<open>buffer.sample(BATCH_SIZE)\<close> returns, and the layers
  of the online network after \<open>loss_v.backward()\<close> and \<open>optimizer.step()\<close>. The calls the
  loop makes to them are recorded in \<open>calls\<close>, in order.
\<close>

type_synonym layers_fn = "real list list \<Rightarrow> error + tensor"

datatype call =
  BufferPopulate
| PopTotalRewards
| PrintLine
| WriterAddScalar string real int
| OptimizerZeroGrad
| BufferSample
| CalcLoss
| LossBackward
| OptimizerStep
| TargetSync

record tick =
  buffer_len :: nat
  new_rewards :: "real list"
  clock1 :: real
  clock2 :: real
  sampled :: "real list experience list"
  stepped :: layers_fn

record loop_state =
  frame_idx :: int
  ts_frame :: int
  ts :: real
  total_rewards :: "real list"
  epsilon :: real
  net_layers :: layers_fn
  target_layers :: layers_fn
  calls :: "call list"

datatype outcome = Continue | Break | Raised error

text \<open>
  The state before the loop: the selector is built with \<open>epsilon=1.0\<close>, and the target
  network is a copy of the online one.
\<close>

definition init_state :: "layers_fn \<Rightarrow> real \<Rightarrow> loop_state" where
  "init_state layers now =
     \<lparr>frame_idx = 0, ts_frame = 0, ts = now, total_rewards = [], epsilon = 1,
      net_layers = layers, target_layers = layers, calls = []\<rparr>"

text \<open>The block under \<open>if new_rewards:\<close>.\<close>

definition report :: "tick \<Rightarrow> loop_state \<Rightarrow> outcome \<times> loop_state" where
  "report t s =
     (if new_rewards t = [] then (Continue, s)
      else
        (let s1 = s\<lparr>total_rewards := total_rewards s @ new_rewards t\<rparr>
         in if clock1 t - ts s1 = 0 then (Raised ZeroDivisionError, s1)
            else
              (let speed = real_of_int (frame_idx s1 - ts_frame s1) / (clock1 t - ts s1);
                   s2 = s1\<lparr>ts_frame := frame_idx s1, ts := clock2 t\<rparr>;
                   recent = drop (length (total_rewards s2) - 100) (total_rewards s2);
                   mean_reward = sum_list recent / real (length recent);
                   s3 = s2\<lparr>calls := calls s2 @
                          [PrintLine,
                           WriterAddScalar ''epsilon'' (epsilon s2) (frame_idx s2),
                           WriterAddScalar ''speed'' speed (frame_idx s2),
                           WriterAddScalar ''reward_100'' mean_reward (frame_idx s2),
                           WriterAddScalar ''reward'' (hd (new_rewards t)) (frame_idx s2)]\<rparr>
               in if MEAN_REWARD_BOUND < mean_reward
                  then (Break, s3\<lparr>calls := calls s3 @ [PrintLine]\<rparr>)
                  else (Continue, s3))))"

text \<open>
  The rest of the body, reached when the buffer is full enough. The loss is computed
  on \<open>net\<close> and \<open>tgt_net.target_model\<close>, the two \<open>CategoricalDQN\<close> networks themselves.
\<close>

definition train :: "tick \<Rightarrow> loop_state \<Rightarrow> outcome \<times> loop_state" where
  "train t s =
     (let s1 = s\<lparr>calls := calls s @ [OptimizerZeroGrad, BufferSample, CalcLoss]\<rparr>
      in case calc_loss (sampled t) (CategoricalDQN_forward (net_layers s1))
                (CategoricalDQN_forward (target_layers s1)) of
           Inl e \<Rightarrow> (Raised e, s1)
         | Inr loss_v \<Rightarrow>
             (let s2 = s1\<lparr>net_layers := stepped t,
                          calls := calls s1 @ [LossBackward, OptimizerStep]\<rparr>
              in if frame_idx s2 mod SYNC_TARGET_FRAMES = 0
                 then (Continue, s2\<lparr>target_layers := net_layers s2,
                                    calls := calls s2 @ [TargetSync]\<rparr>)
                 else (Continue, s2)))"

text \<open>One pass through the body of \<open>while True\<close>.\<close>

definition iteration :: "tick \<Rightarrow> loop_state \<Rightarrow> outcome \<times> loop_state" where
  "iteration t s =
     (let s1 = s\<lparr>frame_idx := frame_idx s + 1\<rparr>;
          s2 = s1\<lparr>calls := calls s1 @ [BufferPopulate]\<rparr>;
          s3 = s2\<lparr>epsilon :=
                    max EPSILON_FINAL
                      (EPSILON_START
                        - real_of_int (frame_idx s2) / real_of_int EPSILON_DECAY_LAST_FRAME)\<rparr>;
          s4 = s3\<lparr>calls := calls s3 @ [PopTotalRewards]\<rparr>
      in case report t s4 of
           (Continue, s5) \<Rightarrow>
             if buffer_len t < REPLAY_START_SIZE then (Continue, s5) else train t s5
         | (out, s5) \<Rightarrow> (out, s5))"

text \<open>
  The loop over a finite sequence of ticks: it stops at \<open>break\<close>, at an exception, or
  when the ticks are used up, and returns the state it has reached.
\<close>

fun run :: "tick list \<Rightarrow> loop_state \<Rightarrow> outcome \<times> loop_state" where
  "run [] s = (Continue, s)"
| "run (t # rest) s =
     (case iteration t s of
        (Continue, s') \<Rightarrow> run rest s'
      | (out, s') \<Rightarrow> (out, s'))"

text \<open>
  The calls of the training step: everything the body does after the test on the
  length of the buffer.
\<close>

fun is_training_call :: "call \<Rightarrow> bool" where
  "is_training_call OptimizerZeroGrad = True"
| "is_training_call BufferSample = True"
| "is_training_call CalcLoss = True"
| "is_training_call LossBackward = True"
| "is_training_call OptimizerStep = True"
| "is_training_call TargetSync = True"
| "is_training_call _ = False"

section \<open>Properties\<close>

subsection \<open>The loop of \<open>unpack_batch\<close> computes five maps\<close>

lemma unpack_loop_maps:
  "unpack_loop batch (ss, as, rs, ds, ls) =
     (ss @ map state batch,
      as @ map action batch,
      rs @ map reward batch,
      ds @ map (\<lambda>e. last_state e = None) batch,
      ls @ map (\<lambda>e. case last_state e of None \<Rightarrow> state e | Some s \<Rightarrow> s) batch)"
  by (induction batch arbitrary: ss as rs ds ls) simp_all

lemma unpack_batch_maps:
  "unpack_batch batch =
     (map state batch,
      map action batch,
      map reward batch,
      map (\<lambda>e. of_bool (last_state e = None)) batch,
      map (\<lambda>e. case last_state e of None \<Rightarrow> state e | Some s \<Rightarrow> s) batch)"
  by (simp add: unpack_batch_def unpack_loop_maps comp_def)

text \<open>
  Claim C5. For every sequence of transition records, \<open>unpack_batch\<close> returns five arrays
  of the length of the batch; at every index they hold the state, action, reward and
  done flag of the record at that index, and the next-state array holds the record's
  next state, or the record's own state where the next state is \<open>None\<close>.
\<close>

theorem unpack_batch_aligned:
  assumes "unpack_batch batch = (states, actions, rewards, dones, next_states)"
  shows "length states = length batch \<and> length actions = length batch \<and>
         length rewards = length batch \<and> length dones = length batch \<and>
         length next_states = length batch \<and>
         (\<forall>i < length batch.
            states ! i = state (batch ! i) \<and>
            actions ! i = action (batch ! i) \<and>
            rewards ! i = reward (batch ! i) \<and>
            dones ! i = (if last_state (batch ! i) = None then 1 else 0) \<and>
            next_states ! i =
              (case last_state (batch ! i) of None \<Rightarrow> state (batch ! i) | Some s \<Rightarrow> s))"
  using assms by (auto simp: unpack_batch_maps)

theorem unpack_batch_aligned_witness:
  "unpack_batch
     [\<lparr>state = 3, action = 1, reward = 1 / 2, last_state = Some 4\<rparr>,
      \<lparr>state = (4::nat), action = 0, reward = - 1, last_state = None\<rparr>]
     = ([3, 4], [1, 0], [1 / 2, - 1], [0, 1], [4, 4]) \<and>
   length [3, 4 :: nat] = 2 \<and>
   [4, 4 :: nat] ! 1 = 4 \<and> [0, 1 :: 8 word] ! 1 = 1 \<and> [0, 1 :: 8 word] ! 0 = 0"
  using unpack_batch_aligned
    [of "[\<lparr>state = 3, action = 1, reward = 1 / 2, last_state = Some 4\<rparr>,
          \<lparr>state = (4::nat), action = 0, reward = - 1, last_state = None\<rparr>]"
        "[3, 4]" "[1, 0]" "[1 / 2, - 1]" "[0, 1]" "[4, 4]"]
  by (simp add: unpack_batch_def)

subsection \<open>The loss\<close>

lemma view_shape3:
  assumes "view_shape [Some b, None, Some c] n = Inr s"
  shows "s = [b, n div (b * c), c] \<and> b * c \<noteq> 0 \<and> n mod (b * c) = 0"
  using assms by (auto simp: view_shape_def Let_def split: if_splits)

lemma CategoricalDQN_forward_shape:
  assumes "CategoricalDQN_forward layers x = Inr t"
  shows "\<exists>a. shape t = [length x, a, N_ATOMS]"
proof -
  from assms obtain fc_out where
    v: "view [Some (length x), None, Some N_ATOMS] fc_out = Inr t"
    by (auto simp: CategoricalDQN_forward_def Let_def split: sum.splits)
  then obtain s where s: "view_shape [Some (length x), None, Some N_ATOMS] (numel fc_out) = Inr s"
    and t: "t = fc_out\<lparr>shape := s\<rparr>"
    by (auto simp: view_def split: sum.splits)
  from view_shape3[OF s] t show ?thesis by simp
qed

lemma gather1_rank3:
  assumes "shape t = [b, a, c]"
  shows "gather1 t idx = Inl ShapeError"
  using assms by (simp add: gather1_def)

text \<open>
  Claim C1 says the prediction that enters the loss is the expected value of the action
  taken, \<open>ExpectationReducer(online_network)(states)[i, actions[i]]\<close>. The main program
  calls \<open>calc_loss(batch, net, tgt_net.target_model)\<close> with \<open>net\<close> the \<open>CategoricalDQN\<close>
  itself, whose output has three dimensions, the raw scores per action and atom. What
  the code does with it: on the network as the main program passes it, for every batch,
  every layer function and every target network, \<open>calc_loss\<close> returns no loss; \<open>gather\<close>
  refuses the three-dimensional input.
\<close>

theorem calc_loss_on_raw_network:
  "calc_loss batch (CategoricalDQN_forward layers) tgt_net \<noteq> Inr loss"
proof
  assume a: "calc_loss batch (CategoricalDQN_forward layers) tgt_net = Inr loss"
  obtain states actions rewards dones next_states where
    u: "unpack_batch batch = (states, actions, rewards, dones, next_states)"
    by (cases "unpack_batch batch") auto
  from a u obtain sav where
    "state_action_values (CategoricalDQN_forward layers) states actions = Inr sav"
    by (auto simp: calc_loss_def split: sum.splits)
  then obtain q where q: "CategoricalDQN_forward layers states = Inr q"
    and g: "gather1 q actions \<noteq> Inl ShapeError"
    by (auto simp: state_action_values_def split: sum.splits)
  from CategoricalDQN_forward_shape[OF q] obtain n where "shape q = [length states, n, N_ATOMS]"
    by blast
  from gather1_rank3[OF this] g show False by simp
qed

text \<open>
  Claim C2 says the next-state value is the maximum over the actions of the expected
  values of the target network. The main program passes the target \<open>CategoricalDQN\<close>
  itself. What line 127 computes on it: \<open>.max(1)[0]\<close> of its output is a matrix of shape
  \<open>[batch, N_ATOMS]\<close>, the maximum over the actions of every raw atom score, and not one
  value per transition (or an error, when there are no actions).
\<close>

theorem max_of_raw_network:
  assumes "CategoricalDQN_forward layers x = Inr t"
  shows "map_sum id shape (max_dim1 t) =
           (if shape t ! 1 = 0 then Inl IndexError else Inr [length x, N_ATOMS])"
proof -
  from CategoricalDQN_forward_shape[OF assms] obtain a where "shape t = [length x, a, N_ATOMS]"
    by blast
  then show ?thesis by (simp add: max_dim1_def Let_def)
qed

theorem max_of_raw_network_witness:
  "CategoricalDQN_forward (\<lambda>fx. Inr \<lparr>shape = [length fx, 102], data = replicate (length fx * 102) 0\<rparr>) [[0]]
     = Inr \<lparr>shape = [1, 2, 51], data = replicate 102 0\<rparr>
   \<and> map_sum id shape (max_dim1 \<lparr>shape = [1, 2, 51], data = replicate 102 0\<rparr>) = Inr [1, 51]"
  using max_of_raw_network[of
     "\<lambda>fx. Inr \<lparr>shape = [length fx, 102], data = replicate (length fx * 102) 0\<rparr>" "[[0]]"
     "\<lparr>shape = [1, 2, 51], data = replicate 102 0\<rparr>"]
  by (simp add: CategoricalDQN_forward_def view_def view_shape_def numel_def N_ATOMS_def Let_def)






text \<open>
  On a network that returns one value per action, a tensor of shape \<open>[batch, actions]\<close>,
  line 126 picks the value of the action taken.
\<close>

lemma state_action_values_gather:
  assumes "net states_v = Inr q" and "shape q = [b, a]"
    and "state_action_values net states_v actions_v = Inr p" and "i < b"
  shows "shape p = [b] \<and> data p ! i = data q ! (i * a + nat (actions_v ! i))"
  using assms
  by (auto simp: state_action_values_def gather1_def squeeze_last_def split: if_splits)

subsection \<open>The shape of the network output\<close>

lemma conv_stack_batch:
  assumes "Sequential_shape
             [Conv2d c 32 8 4, ReLU, Conv2d 32 64 4 2, ReLU, Conv2d 64 64 3 1, ReLU]
             (1 # shp) = Inr out"
  shows "\<exists>h w. out = [1, 64, h, w] \<and>
           Sequential_shape
             [Conv2d c 32 8 4, ReLU, Conv2d 32 64 4 2, ReLU, Conv2d 64 64 3 1, ReLU]
             (b # shp) = Inr [b, 64, h, w]"
  using assms by (auto split: list.splits if_splits)

lemma view_shape2:
  assumes "0 < b"
  shows "view_shape [Some b, None] (b * p) = Inr [b, p]"
  using assms by (simp add: view_shape_def)

lemma view_shape3_ok:
  assumes "0 < b" "0 < c"
  shows "view_shape [Some b, None, Some c] (b * (n * c)) = Inr [b, n, c]"
proof -
  have "b * (n * c) = n * (b * c)" by simp
  then show ?thesis using assms by (simp add: view_shape_def del: mult.commute mult.left_commute)
qed

text \<open>
  Claim C6. Whatever input shape and number of actions the network was constructed
  with, if the construction succeeded, then on every non-empty batch of observations of
  that shape the forward pass returns a tensor of shape \<open>[batch_size, n_actions, N_ATOMS]\<close>:
  the input size of the first linear layer is what \<open>_get_conv_out\<close> measured on the
  dummy input of batch size 1.
\<close>

theorem forward_shape_correct:
  assumes "CategoricalDQN_init input_shape n_actions = Inr m" and "0 < batch_size"
  shows "forward_shape m (batch_size # input_shape) = Inr [batch_size, n_actions, N_ATOMS]"
proof -
  let ?cv = "\<lambda>c. [Conv2d c 32 8 4, ReLU, Conv2d 32 64 4 2, ReLU, Conv2d 64 64 3 1, ReLU]"
  from assms(1) obtain c rest where shp: "input_shape = c # rest"
    by (cases input_shape) (auto simp: CategoricalDQN_init_def)
  from assms(1) shp obtain out where
    out: "Sequential_shape (?cv c) (1 # input_shape) = Inr out"
    and m: "m = \<lparr>conv = ?cv c,
                fc = [Linear (prod_list out) 512, ReLU, Linear 512 (n_actions * N_ATOMS)]\<rparr>"
    by (auto simp: CategoricalDQN_init_def get_conv_out_def Let_def split: sum.splits)
  from conv_stack_batch[OF out, of batch_size] obtain h w where
    o: "out = [1, 64, h, w]"
    and cb: "Sequential_shape (?cv c) (batch_size # input_shape) = Inr [batch_size, 64, h, w]"
    by blast
  have v1: "view_shape [Some batch_size, None] (prod_list [batch_size, 64, h, w])
              = Inr [batch_size, 64 * h * w]"
    using view_shape2[OF assms(2), of "64 * h * w"] by (simp add: mult.assoc)
  have f: "Sequential_shape (fc m) [batch_size, 64 * h * w]
             = Inr [batch_size, n_actions * N_ATOMS]"
    by (simp add: m o mult.assoc)
  have v2: "view_shape [Some batch_size, None, Some N_ATOMS]
              (prod_list [batch_size, n_actions * N_ATOMS])
              = Inr [batch_size, n_actions, N_ATOMS]"
    using view_shape3_ok[OF assms(2), of N_ATOMS n_actions] by (simp add: N_ATOMS_def)
  show ?thesis
    unfolding forward_shape_def using cb v1 f v2 by (simp add: m)
qed

theorem forward_shape_correct_witness:
  "CategoricalDQN_init [4, 84, 84] 6
     = Inr \<lparr>conv = [Conv2d 4 32 8 4, ReLU, Conv2d 32 64 4 2, ReLU, Conv2d 64 64 3 1, ReLU],
            fc = [Linear 3136 512, ReLU, Linear 512 306]\<rparr>
   \<and> forward_shape
       \<lparr>conv = [Conv2d 4 32 8 4, ReLU, Conv2d 32 64 4 2, ReLU, Conv2d 64 64 3 1, ReLU],
        fc = [Linear 3136 512, ReLU, Linear 512 306]\<rparr> [8, 4, 84, 84] = Inr [8, 6, 51]
   \<and> CategoricalDQN_init [1, 36, 100] 3
     = Inr \<lparr>conv = [Conv2d 1 32 8 4, ReLU, Conv2d 32 64 4 2, ReLU, Conv2d 64 64 3 1, ReLU],
            fc = [Linear 576 512, ReLU, Linear 512 153]\<rparr>
   \<and> forward_shape
       \<lparr>conv = [Conv2d 1 32 8 4, ReLU, Conv2d 32 64 4 2, ReLU, Conv2d 64 64 3 1, ReLU],
        fc = [Linear 576 512, ReLU, Linear 512 153]\<rparr> [32, 1, 36, 100] = Inr [32, 3, 51]"
  using forward_shape_correct[of "[4, 84, 84]" 6
          "\<lparr>conv = [Conv2d 4 32 8 4, ReLU, Conv2d 32 64 4 2, ReLU, Conv2d 64 64 3 1, ReLU],
            fc = [Linear 3136 512, ReLU, Linear 512 306]\<rparr>" 8]
        forward_shape_correct[of "[1, 36, 100]" 3
          "\<lparr>conv = [Conv2d 1 32 8 4, ReLU, Conv2d 32 64 4 2, ReLU, Conv2d 64 64 3 1, ReLU],
            fc = [Linear 576 512, ReLU, Linear 512 153]\<rparr>" 32]
  by (simp add: CategoricalDQN_init_def get_conv_out_def N_ATOMS_def)

text \<open>
  An input smaller than the first kernel is refused when the network is constructed.
\<close>

lemma small_input_rejected: "CategoricalDQN_init [4, 7, 7] 6 = Inl ShapeError"
  by (simp add: CategoricalDQN_init_def get_conv_out_def)

subsection \<open>The normalised probabilities\<close>

lemma length_concat_rows:
  assumes "\<forall>j<r. length (f j) = c"
  shows "length (concat (map f [0..<r])) = r * c"
  using assms by (induction r) simp_all

lemma chunk_concat_rows:
  assumes "\<forall>j<r. length (f j) = c" and "i < r"
  shows "chunk c i (concat (map f [0..<r])) = f i"
  using assms
proof (induction r)
  case 0
  then show ?case by simp
next
  case (Suc k)
  have len: "length (concat (map f [0..<k])) = k * c"
    using Suc.prems(1) by (intro length_concat_rows) simp
  show ?case
  proof (cases "i < k")
    case True
    then have "i * c + c \<le> k * c"
      by (metis Suc_leI mult_Suc mult_le_mono1 add.commute)
    then have "chunk c i (concat (map f [0..<Suc k])) = chunk c i (concat (map f [0..<k]))"
      using len by (simp add: chunk_def)
    also have "\<dots> = f i" using Suc.IH Suc.prems(1) True by simp
    finally show ?thesis .
  next
    case False
    with Suc.prems(2) have "i = k" by simp
    then show ?thesis using len Suc.prems(1) by (simp add: chunk_def)
  qed
qed

lemma length_chunk:
  assumes "i * c + c \<le> length xs"
  shows "length (chunk c i xs) = c"
  using assms by (simp add: chunk_def)

lemma length_softmax_row: "length (softmax_row xs) = length xs"
  by (simp add: softmax_row_def)

lemma sum_exp_pos:
  assumes "xs \<noteq> []"
  shows "0 < sum_list (map exp (xs :: real list))"
  using assms
proof (induction xs)
  case Nil
  then show ?case by simp
next
  case (Cons x xs)
  have "0 \<le> sum_list (map exp xs)" by (rule sum_list_nonneg) auto
  moreover have "0 < exp x" by simp
  ultimately show ?case by (simp add: add_pos_nonneg)
qed

lemma softmax_row_nonneg:
  assumes "p \<in> set (softmax_row xs)"
  shows "0 \<le> p"
proof -
  from assms have "xs \<noteq> []" by (auto simp: softmax_row_def)
  from sum_exp_pos[OF this] assms show ?thesis
    by (auto simp: softmax_row_def)
qed

lemma softmax_row_sum:
  assumes "xs \<noteq> []"
  shows "sum_list (softmax_row xs) = 1"
proof -
  let ?z = "sum_list (map exp xs)"
  have z: "0 < ?z" using sum_exp_pos[OF assms] .
  have "sum_list (softmax_row xs) = sum_list (map (\<lambda>v. exp v * (1 / ?z)) xs)"
    by (simp add: softmax_row_def)
  also have "\<dots> = ?z * (1 / ?z)"
    by (simp only: sum_list_mult_const)
  also have "\<dots> = 1" using z by simp
  finally show ?thesis .
qed

lemma view_shape_rows:
  assumes "0 < c"
  shows "view_shape [None, Some c] (r * c) = Inr [r, c]"
  using assms by (simp add: view_shape_def)

lemma map_case_Some: "map (case_option d id) (map Some s) = s"
  by (induction s) simp_all

lemma view_shape_same:
  "view_shape (map Some s) (prod_list s) = Inr s"
proof -
  have "filter (\<lambda>d. d = None) (map Some s) = []" by (induction s) simp_all
  moreover have "None \<notin> set (map Some s)" by auto
  ultimately show ?thesis
    by (simp add: view_shape_def map_case_Some del: map_map)
qed

lemma CategoricalQValues_probs_rows:
  assumes l: "layers (map (map (\<lambda>v. v / 256)) x) = Inr fc_out"
    and wf: "wf_tensor fc_out"
    and c: "cat_net m = CategoricalDQN_forward layers"
    and p: "CategoricalQValues_probs m x = Inr probs"
  shows "\<exists>n. shape probs = [length x, n, N_ATOMS] \<and>
           (\<forall>i < length x * n.
              chunk N_ATOMS i (data probs) = softmax_row (chunk N_ATOMS i (data fc_out)) \<and>
              length (chunk N_ATOMS i (data fc_out)) = N_ATOMS)"
proof -
  from p c obtain cat_out where co: "CategoricalDQN_forward layers x = Inr cat_out"
    by (auto simp: CategoricalQValues_probs_def split: sum.splits)
  with l have "view [Some (length x), None, Some N_ATOMS] fc_out = Inr cat_out"
    by (simp add: CategoricalDQN_forward_def Let_def)
  then obtain s where s: "view_shape [Some (length x), None, Some N_ATOMS] (numel fc_out) = Inr s"
    and cs: "cat_out = fc_out\<lparr>shape := s\<rparr>"
    by (auto simp: view_def split: sum.splits)
  define n where "n = numel fc_out div (length x * N_ATOMS)"
  from view_shape3[OF s] have sh: "s = [length x, n, N_ATOMS]"
    and nz: "length x * N_ATOMS \<noteq> 0" and dv: "numel fc_out mod (length x * N_ATOMS) = 0"
    by (simp_all add: n_def)
  from dv have ne: "numel fc_out = (length x * n) * N_ATOMS"
    unfolding n_def by (metis mod_0_imp_dvd dvd_div_mult_self mult.assoc mult.commute)
  have nco: "numel cat_out = (length x * n) * N_ATOMS"
    by (simp add: cs sh numel_def)
  have v: "view [None, Some N_ATOMS] cat_out = Inr (cat_out\<lparr>shape := [length x * n, N_ATOMS]\<rparr>)"
    using nz by (simp add: view_def nco view_shape_rows)
  let ?rows = "concat (map (\<lambda>i. softmax_row (chunk N_ATOMS i (data fc_out))) [0..<length x * n])"
  have sm: "Softmax (cat_out\<lparr>shape := [length x * n, N_ATOMS]\<rparr>)
              = Inr (cat_out\<lparr>shape := [length x * n, N_ATOMS], data := ?rows\<rparr>)"
    by (simp add: Softmax_def cs)
  have "numel (cat_out\<lparr>shape := [length x * n, N_ATOMS], data := ?rows\<rparr>) = prod_list (shape cat_out)"
    by (simp add: numel_def cs sh)
  then have v2: "view (map Some (shape cat_out))
                   (cat_out\<lparr>shape := [length x * n, N_ATOMS], data := ?rows\<rparr>)
                 = Inr (cat_out\<lparr>shape := shape cat_out, data := ?rows\<rparr>)"
    by (simp add: view_def view_shape_same)
  from p c co v sm v2 have pr: "probs = cat_out\<lparr>shape := shape cat_out, data := ?rows\<rparr>"
    by (simp add: CategoricalQValues_probs_def)
  have len: "length (data fc_out) = (length x * n) * N_ATOMS"
    using wf ne by (simp add: wf_tensor_def)
  have rows: "\<forall>j < length x * n. length (chunk N_ATOMS j (data fc_out)) = N_ATOMS"
  proof (intro allI impI)
    fix j assume "j < length x * n"
    then have "j * N_ATOMS + N_ATOMS \<le> (length x * n) * N_ATOMS"
      by (metis Suc_leI mult_Suc mult_le_mono1 add.commute)
    then show "length (chunk N_ATOMS j (data fc_out)) = N_ATOMS"
      using len by (intro length_chunk) simp
  qed
  have "\<forall>i < length x * n.
          chunk N_ATOMS i (data probs) = softmax_row (chunk N_ATOMS i (data fc_out))"
  proof (intro allI impI)
    fix i assume i: "i < length x * n"
    have "\<forall>j < length x * n.
            length (softmax_row (chunk N_ATOMS j (data fc_out))) = N_ATOMS"
      using rows by (simp add: length_softmax_row)
    from chunk_concat_rows[OF this i]
    show "chunk N_ATOMS i (data probs) = softmax_row (chunk N_ATOMS i (data fc_out))"
      by (simp add: pr)
  qed
  moreover have "shape probs = [length x, n, N_ATOMS]" by (simp add: pr cs sh)
  ultimately show ?thesis using rows by blast
qed

lemma slice_index:
  assumes "b < (B::nat)" and "a < n"
  shows "b * n + a < B * n"
proof -
  have "b * n + a < b * n + n" using assms(2) by simp
  also have "\<dots> = Suc b * n" by simp
  also have "\<dots> \<le> B * n" using assms(1) by (intro mult_le_mono1) simp
  finally show ?thesis .
qed

text \<open>
  Claim C7. In the forward pass of \<open>CategoricalQValues\<close> around a \<open>CategoricalDQN\<close> whose
  layers return a well-formed tensor, \<open>probs\<close> has the shape \<open>[batch, actions, N_ATOMS]\<close>,
  and for every batch index and every action the \<open>N_ATOMS\<close> probabilities of that slice
  are non-negative and sum to 1.
\<close>

theorem probs_are_distributions:
  assumes "layers (map (map (\<lambda>v. v / 256)) x) = Inr fc_out"
    and "wf_tensor fc_out"
    and "cat_net m = CategoricalDQN_forward layers"
    and "CategoricalQValues_probs m x = Inr probs"
  shows "\<exists>n. shape probs = [length x, n, N_ATOMS] \<and>
           (\<forall>b < length x. \<forall>a < n.
              length (chunk N_ATOMS (b * n + a) (data probs)) = N_ATOMS \<and>
              (\<forall>p \<in> set (chunk N_ATOMS (b * n + a) (data probs)). 0 \<le> p) \<and>
              sum_list (chunk N_ATOMS (b * n + a) (data probs)) = 1)"
proof -
  from CategoricalQValues_probs_rows[OF assms] obtain n where
    sh: "shape probs = [length x, n, N_ATOMS]"
    and rows: "\<forall>i < length x * n.
              chunk N_ATOMS i (data probs) = softmax_row (chunk N_ATOMS i (data fc_out)) \<and>
              length (chunk N_ATOMS i (data fc_out)) = N_ATOMS"
    by blast
  have "\<forall>b < length x. \<forall>a < n.
              length (chunk N_ATOMS (b * n + a) (data probs)) = N_ATOMS \<and>
              (\<forall>p \<in> set (chunk N_ATOMS (b * n + a) (data probs)). 0 \<le> p) \<and>
              sum_list (chunk N_ATOMS (b * n + a) (data probs)) = 1"
  proof (intro allI impI)
    fix b a assume "b < length x" "a < n"
    then have "b * n + a < length x * n" by (rule slice_index)
    with rows have e: "chunk N_ATOMS (b * n + a) (data probs)
                         = softmax_row (chunk N_ATOMS (b * n + a) (data fc_out))"
      and l: "length (chunk N_ATOMS (b * n + a) (data fc_out)) = N_ATOMS"
      by simp_all
    from l have ne: "chunk N_ATOMS (b * n + a) (data fc_out) \<noteq> []"
      by (auto simp: N_ATOMS_def)
    show "length (chunk N_ATOMS (b * n + a) (data probs)) = N_ATOMS \<and>
              (\<forall>p \<in> set (chunk N_ATOMS (b * n + a) (data probs)). 0 \<le> p) \<and>
              sum_list (chunk N_ATOMS (b * n + a) (data probs)) = 1"
      using l softmax_row_nonneg softmax_row_sum[OF ne]
      by (simp add: e length_softmax_row)
  qed
  with sh show ?thesis by blast
qed

theorem probs_are_distributions_witness:
  "CategoricalQValues_probs
     \<lparr>cat_net = CategoricalDQN_forward
        (\<lambda>fx. Inr \<lparr>shape = [length fx, 51], data = replicate (length fx * 51) 0\<rparr>),
      supports = []\<rparr> [[0]]
     = Inr \<lparr>shape = [1, 1, 51], data = replicate 51 (1 / 51)\<rparr>
   \<and> wf_tensor \<lparr>shape = [1, 51], data = replicate 51 0\<rparr>
   \<and> sum_list (chunk N_ATOMS 0 (replicate 51 (1 / 51 :: real))) = 1"
proof -
  let ?layers = "\<lambda>fx :: real list list.
      (Inr \<lparr>shape = [length fx, 51], data = replicate (length fx * 51) 0\<rparr> :: error + tensor)"
  let ?m = "\<lparr>cat_net = CategoricalDQN_forward ?layers, supports = []\<rparr>"
  let ?probs = "\<lparr>shape = [1, 1, 51], data = replicate 51 (1 / 51)\<rparr>"
  have l: "?layers (map (map (\<lambda>v. v / 256)) [[0]]) = Inr \<lparr>shape = [1, 51], data = replicate 51 0\<rparr>"
    by simp
  have wf: "wf_tensor \<lparr>shape = [1, 51], data = replicate 51 0\<rparr>"
    by (simp add: wf_tensor_def numel_def)
  have c: "cat_net ?m = CategoricalDQN_forward ?layers" by simp
  have co: "CategoricalDQN_forward ?layers [[0]] = Inr \<lparr>shape = [1, 1, 51], data = replicate 51 0\<rparr>"
    by (simp add: CategoricalDQN_forward_def view_def view_shape_def numel_def N_ATOMS_def)
  have sr: "softmax_row (replicate 51 0) = replicate 51 (1 / 51)"
    by (simp add: softmax_row_def sum_list_replicate)
  have p: "CategoricalQValues_probs ?m [[0]] = Inr ?probs"
    by (simp add: CategoricalQValues_probs_def co view_def view_shape_def numel_def N_ATOMS_def
          Softmax_def chunk_def sr)
  from probs_are_distributions[OF l wf c p] obtain n where
    "shape ?probs = [length [[0::real]], n, N_ATOMS]"
    and a: "\<forall>b < length [[0::real]]. \<forall>a < n.
              sum_list (chunk N_ATOMS (b * n + a) (data ?probs)) = 1"
    by blast
  then have "n = 1" by simp
  with a have "sum_list (chunk N_ATOMS 0 (replicate 51 (1 / 51 :: real))) = 1" by simp
  with p wf show ?thesis by simp
qed

subsection \<open>The support vector\<close>


text \<open>
  A vector of \<open>N_ATOMS\<close> elements that starts at \<open>Vmin\<close> and rises in steps of
  \<open>(Vmax - Vmin) / (N_ATOMS - 1)\<close> ends at \<open>Vmax\<close>: no vector has \<open>N_ATOMS\<close> elements and
  ends one step short of it.
\<close>

lemma equal_steps_nth:
  fixes s :: "real list"
  assumes "\<forall>i. Suc i < length s \<longrightarrow> s ! Suc i - s ! i = d" and "k < length s"
  shows "s ! k = s ! 0 + real k * d"
  using assms(2)
proof (induction k)
  case 0
  then show ?case by simp
next
  case (Suc k)
  then have "s ! k = s ! 0 + real k * d" by simp
  moreover from assms(1) Suc.prems have "s ! Suc k - s ! k = d" by simp
  ultimately show ?case by (simp add: algebra_simps)
qed

lemma no_vector_of_N_ATOMS_ends_one_step_short:
  fixes s :: "real list"
  assumes "length s = N_ATOMS" and "s ! 0 = real_of_int Vmin"
    and "\<forall>i. Suc i < length s \<longrightarrow>
           s ! Suc i - s ! i = real_of_int (Vmax - Vmin) / real (N_ATOMS - 1)"
  shows "last s = real_of_int Vmax"
proof -
  from assms(1) have "s \<noteq> []" by (auto simp: N_ATOMS_def)
  then have "last s = s ! (length s - 1)" by (rule last_conv_nth)
  also have "\<dots> = s ! 50" using assms(1) by (simp add: N_ATOMS_def)
  also have "\<dots> = s ! 0 + real (50::nat) * (real_of_int (Vmax - Vmin) / real (N_ATOMS - 1))"
    using assms(1) by (intro equal_steps_nth[OF assms(3)]) (simp add: N_ATOMS_def)
  also have "\<dots> = real_of_int Vmax"
    using assms(2) by (simp add: Vmin_def Vmax_def N_ATOMS_def)
  finally show ?thesis .
qed




text \<open>
  Probabilities over \<open>N_ATOMS\<close> atoms do not broadcast against a support of 50 elements:
  the product \<open>probs * self.supports\<close> of \<open>forward\<close> is a shape error then.
\<close>

lemma mul_bcast_supports_mismatch:
  assumes "shape probs = [b, a, N_ATOMS]" "length s = 50"
  shows "mul_bcast probs s = Inl ShapeError"
  using assms by (simp add: mul_bcast_def N_ATOMS_def Let_def)

subsection \<open>The training loop: exploration rate and replay warm-up\<close>

lemma report_keeps:
  assumes "report t s = (out, s')"
  shows "epsilon s' = epsilon s" "frame_idx s' = frame_idx s"
        "net_layers s' = net_layers s" "target_layers s' = target_layers s"
  using assms by (auto simp: report_def Let_def split: if_splits)

lemma report_calls:
  assumes "report t s = (out, s')"
  shows "\<exists>cs. calls s' = calls s @ cs \<and> \<not> list_ex is_training_call cs"
  using assms by (auto simp: report_def Let_def split: if_splits)

lemma train_keeps:
  assumes "train t s = (out, s')"
  shows "epsilon s' = epsilon s" "frame_idx s' = frame_idx s"
  using assms by (auto simp: train_def Let_def split: if_splits sum.splits)

lemma iteration_cases:
  assumes "iteration t s = (out, s')"
  obtains o1 s1 where
    "report t (s\<lparr>frame_idx := frame_idx s + 1,
       calls := calls s @ [BufferPopulate],
       epsilon := max EPSILON_FINAL (EPSILON_START - real_of_int (frame_idx s + 1) / real_of_int EPSILON_DECAY_LAST_FRAME),
       calls := calls s @ [BufferPopulate] @ [PopTotalRewards]\<rparr>) = (o1, s1)"
    "(o1 = out \<and> s' = s1 \<and> (out = Continue \<longrightarrow> buffer_len t < REPLAY_START_SIZE)) \<or>
     (o1 = Continue \<and> \<not> buffer_len t < REPLAY_START_SIZE \<and> train t s1 = (out, s'))"
proof -
  obtain o1 s1 where r: "report t (s\<lparr>frame_idx := frame_idx s + 1,
       calls := calls s @ [BufferPopulate],
       epsilon := max EPSILON_FINAL (EPSILON_START - real_of_int (frame_idx s + 1) / real_of_int EPSILON_DECAY_LAST_FRAME),
       calls := calls s @ [BufferPopulate] @ [PopTotalRewards]\<rparr>) = (o1, s1)"
    by (cases "report t (s\<lparr>frame_idx := frame_idx s + 1,
       calls := calls s @ [BufferPopulate],
       epsilon := max EPSILON_FINAL (EPSILON_START - real_of_int (frame_idx s + 1) / real_of_int EPSILON_DECAY_LAST_FRAME),
       calls := calls s @ [BufferPopulate] @ [PopTotalRewards]\<rparr>)") auto
  from assms r have "(o1 = out \<and> s' = s1 \<and> (out = Continue \<longrightarrow> buffer_len t < REPLAY_START_SIZE)) \<or>
     (o1 = Continue \<and> \<not> buffer_len t < REPLAY_START_SIZE \<and> train t s1 = (out, s'))"
    by (auto simp: iteration_def Let_def split: outcome.splits if_splits)
  with r show ?thesis using that by blast
qed

lemma iteration_epsilon:
  assumes "iteration t s = (out, s')"
  shows "frame_idx s' = frame_idx s + 1"
    and "epsilon s' = max EPSILON_FINAL
           (EPSILON_START - real_of_int (frame_idx s + 1) / real_of_int EPSILON_DECAY_LAST_FRAME)"
proof -
  from assms obtain o1 s1 where r: "report t (s\<lparr>frame_idx := frame_idx s + 1,
       calls := calls s @ [BufferPopulate],
       epsilon := max EPSILON_FINAL (EPSILON_START - real_of_int (frame_idx s + 1) / real_of_int EPSILON_DECAY_LAST_FRAME),
       calls := calls s @ [BufferPopulate] @ [PopTotalRewards]\<rparr>) = (o1, s1)"
    and c: "(o1 = out \<and> s' = s1 \<and> (out = Continue \<longrightarrow> buffer_len t < REPLAY_START_SIZE)) \<or>
     (o1 = Continue \<and> \<not> buffer_len t < REPLAY_START_SIZE \<and> train t s1 = (out, s'))"
    by (rule iteration_cases)
  note k = report_keeps[OF r]
  from c show "frame_idx s' = frame_idx s + 1"
    and "epsilon s' = max EPSILON_FINAL
           (EPSILON_START - real_of_int (frame_idx s + 1) / real_of_int EPSILON_DECAY_LAST_FRAME)"
    using k train_keeps[of t s1 out s'] by auto
qed

lemma iteration_idle:
  assumes "buffer_len t < REPLAY_START_SIZE" "iteration t s = (out, s')"
  shows "\<exists>cs. calls s' = calls s @ cs \<and> \<not> list_ex is_training_call cs"
    and "net_layers s' = net_layers s" and "target_layers s' = target_layers s"
proof -
  from assms(2) obtain o1 s1 where r: "report t (s\<lparr>frame_idx := frame_idx s + 1,
       calls := calls s @ [BufferPopulate],
       epsilon := max EPSILON_FINAL (EPSILON_START - real_of_int (frame_idx s + 1) / real_of_int EPSILON_DECAY_LAST_FRAME),
       calls := calls s @ [BufferPopulate] @ [PopTotalRewards]\<rparr>) = (o1, s1)"
    and c: "(o1 = out \<and> s' = s1 \<and> (out = Continue \<longrightarrow> buffer_len t < REPLAY_START_SIZE)) \<or>
     (o1 = Continue \<and> \<not> buffer_len t < REPLAY_START_SIZE \<and> train t s1 = (out, s'))"
    by (rule iteration_cases)
  from c assms(1) have e: "s' = s1" by auto
  from report_calls[OF r] obtain cs where "calls s1 = (calls s @ [BufferPopulate] @ [PopTotalRewards]) @ cs"
    "\<not> list_ex is_training_call cs" by auto
  then have "calls s' = calls s @ ([BufferPopulate, PopTotalRewards] @ cs) \<and>
     \<not> list_ex is_training_call ([BufferPopulate, PopTotalRewards] @ cs)"
    using e by simp
  then show "\<exists>cs. calls s' = calls s @ cs \<and> \<not> list_ex is_training_call cs" by blast
  show "net_layers s' = net_layers s" "target_layers s' = target_layers s"
    using report_keeps[OF r] e by simp_all
qed

lemma run_snoc:
  "run (ticks @ [t]) s =
     (case run ticks s of (Continue, s') \<Rightarrow> iteration t s' | (out, s') \<Rightarrow> (out, s'))"
proof (induction ticks arbitrary: s)
  case Nil
  show ?case by (simp split: prod.splits outcome.splits)
next
  case (Cons a ticks)
  then show ?case by (simp split: prod.splits outcome.splits)
qed

lemma epsilon_step_le:
  assumes "0 \<le> f"
  shows "max EPSILON_FINAL (EPSILON_START - real_of_int (f + 1) / real_of_int EPSILON_DECAY_LAST_FRAME)
       \<le> max EPSILON_FINAL (EPSILON_START - real_of_int f / real_of_int EPSILON_DECAY_LAST_FRAME)"
  using assms by (auto simp: EPSILON_FINAL_def EPSILON_START_def EPSILON_DECAY_LAST_FRAME_def max_def divide_simps)

lemma run_inv:
  assumes "epsilon s = max EPSILON_FINAL
           (EPSILON_START - real_of_int (frame_idx s) / real_of_int EPSILON_DECAY_LAST_FRAME)"
    and "run ticks s = (out, s')"
  shows "epsilon s' = max EPSILON_FINAL
           (EPSILON_START - real_of_int (frame_idx s') / real_of_int EPSILON_DECAY_LAST_FRAME)"
  using assms
proof (induction ticks arbitrary: s)
  case Nil
  then show ?case by simp
next
  case (Cons t ticks)
  obtain o1 s1 where it: "iteration t s = (o1, s1)" by (cases "iteration t s") auto
  have inv1: "epsilon s1 = max EPSILON_FINAL
           (EPSILON_START - real_of_int (frame_idx s1) / real_of_int EPSILON_DECAY_LAST_FRAME)"
    using iteration_epsilon[OF it] by simp
  show ?case
  proof (cases o1)
    case Continue
    with it Cons.prems(2) have "run ticks s1 = (out, s')" by simp
    from Cons.IH[OF inv1 this] show ?thesis .
  next
    case Break
    with it Cons.prems(2) have "s' = s1" by simp
    with inv1 show ?thesis by simp
  next
    case (Raised x)
    with it Cons.prems(2) have "s' = s1" by simp
    with inv1 show ?thesis by simp
  qed
qed

lemma run_frame_idx:
  assumes "run ticks s = (out, s')"
  shows "frame_idx s \<le> frame_idx s'"
  using assms
proof (induction ticks arbitrary: s)
  case Nil
  then show ?case by simp
next
  case (Cons t ticks)
  obtain o1 s1 where it: "iteration t s = (o1, s1)" by (cases "iteration t s") auto
  have f: "frame_idx s1 = frame_idx s + 1" using iteration_epsilon(1)[OF it] .
  show ?case
  proof (cases o1)
    case Continue
    with it Cons.prems have "run ticks s1 = (out, s')" by simp
    from Cons.IH[OF this] f show ?thesis by simp
  next
    case Break
    with it Cons.prems have "s' = s1" by simp
    with f show ?thesis by simp
  next
    case (Raised x)
    with it Cons.prems have "s' = s1" by simp
    with f show ?thesis by simp
  qed
qed

text \<open>
  Claim C9. Along every execution of the loop, from the initial state and whatever the
  collaborators return, the exploration rate is
  \<open>max(EPSILON_FINAL, EPSILON_START - frame_idx / EPSILON_DECAY_LAST_FRAME)\<close> of the
  current frame index; it is never below \<open>EPSILON_FINAL\<close>, and one more iteration never
  raises it.
\<close>

theorem epsilon_schedule:
  "let s = snd (run ticks (init_state layers now));
       s' = snd (run (ticks @ [t]) (init_state layers now))
   in epsilon s = max EPSILON_FINAL
        (EPSILON_START - real_of_int (frame_idx s) / real_of_int EPSILON_DECAY_LAST_FRAME)
      \<and> EPSILON_FINAL \<le> epsilon s
      \<and> epsilon s' \<le> epsilon s"
proof -
  obtain out s where r: "run ticks (init_state layers now) = (out, s)"
    by (cases "run ticks (init_state layers now)") auto
  have i0: "epsilon (init_state layers now) = max EPSILON_FINAL
        (EPSILON_START - real_of_int (frame_idx (init_state layers now)) / real_of_int EPSILON_DECAY_LAST_FRAME)"
    by (simp add: init_state_def EPSILON_START_def EPSILON_FINAL_def)
  have e: "epsilon s = max EPSILON_FINAL
        (EPSILON_START - real_of_int (frame_idx s) / real_of_int EPSILON_DECAY_LAST_FRAME)"
    using run_inv[OF i0 r] .
  have f: "0 \<le> frame_idx s"
    using run_frame_idx[OF r] by (simp add: init_state_def)
  have lb: "EPSILON_FINAL \<le> epsilon s" using e by simp
  have mono: "epsilon (snd (run (ticks @ [t]) (init_state layers now))) \<le> epsilon s"
  proof (cases out)
    case Continue
    obtain o2 s2 where it: "iteration t s = (o2, s2)" by (cases "iteration t s") auto
    have "run (ticks @ [t]) (init_state layers now) = (o2, s2)"
      using r Continue it by (simp add: run_snoc)
    moreover have "epsilon s2 \<le> epsilon s"
      using iteration_epsilon(2)[OF it] e epsilon_step_le[OF f] by simp
    ultimately show ?thesis by simp
  next
    case Break
    then show ?thesis using r by (simp add: run_snoc)
  next
    case (Raised x)
    then show ?thesis using r by (simp add: run_snoc)
  qed
  show ?thesis using r e lb mono by (simp add: Let_def)
qed

theorem epsilon_schedule_witness:
  "(let s = snd (run [\<lparr>buffer_len = 9999, new_rewards = [], clock1 = 0, clock2 = 0, sampled = [],
           stepped = (\<lambda>_. Inl ShapeError)\<rparr>] (init_state (\<lambda>_. Inl ShapeError) 0));
       s' = snd (run ([\<lparr>buffer_len = 9999, new_rewards = [], clock1 = 0, clock2 = 0, sampled = [],
           stepped = (\<lambda>_. Inl ShapeError)\<rparr>] @ [\<lparr>buffer_len = 9999, new_rewards = [], clock1 = 0, clock2 = 0, sampled = [],
           stepped = (\<lambda>_. Inl ShapeError)\<rparr>]) (init_state (\<lambda>_. Inl ShapeError) 0))
   in epsilon s = max EPSILON_FINAL
        (EPSILON_START - real_of_int (frame_idx s) / real_of_int EPSILON_DECAY_LAST_FRAME)
      \<and> EPSILON_FINAL \<le> epsilon s
      \<and> epsilon s' \<le> epsilon s)
   \<and> epsilon (snd (run [\<lparr>buffer_len = 9999, new_rewards = [], clock1 = 0, clock2 = 0, sampled = [],
           stepped = (\<lambda>_. Inl ShapeError)\<rparr>] (init_state (\<lambda>_. Inl ShapeError) 0))) = 99999 / 100000"
  using epsilon_schedule[of "[\<lparr>buffer_len = 9999, new_rewards = [], clock1 = 0, clock2 = 0, sampled = [],
           stepped = (\<lambda>_. Inl ShapeError)\<rparr>]" "\<lambda>_. Inl ShapeError" 0 "\<lparr>buffer_len = 9999, new_rewards = [], clock1 = 0, clock2 = 0, sampled = [],
           stepped = (\<lambda>_. Inl ShapeError)\<rparr>"]
  by (simp add: iteration_def report_def init_state_def Let_def REPLAY_START_SIZE_def
       EPSILON_START_def EPSILON_FINAL_def EPSILON_DECAY_LAST_FRAME_def)

text \<open>
  Claim C10. An iteration that finds fewer than \<open>REPLAY_START_SIZE\<close> transitions in the
  buffer makes none of the calls of the training step (no gradient reset, no sampling,
  no loss, no backward pass, no optimizer step, no target synchronisation): it only
  appends calls of experience collection and metrics, and leaves both networks as they
  were.
\<close>

theorem no_training_before_replay_start:
  assumes "buffer_len t < REPLAY_START_SIZE"
  shows "take (length (calls s)) (calls (snd (iteration t s))) = calls s
       \<and> \<not> list_ex is_training_call (drop (length (calls s)) (calls (snd (iteration t s))))
       \<and> net_layers (snd (iteration t s)) = net_layers s
       \<and> target_layers (snd (iteration t s)) = target_layers s"
proof -
  obtain out s' where it: "iteration t s = (out, s')" by (cases "iteration t s") auto
  from iteration_idle[OF assms it] show ?thesis using it by auto
qed

theorem no_training_before_replay_start_witness:
  "buffer_len \<lparr>buffer_len = 9999, new_rewards = [1], clock1 = 2, clock2 = 3, sampled = [],
           stepped = (\<lambda>_. Inl ShapeError)\<rparr> < REPLAY_START_SIZE
   \<and> calls (snd (iteration \<lparr>buffer_len = 9999, new_rewards = [1], clock1 = 2, clock2 = 3, sampled = [],
           stepped = (\<lambda>_. Inl ShapeError)\<rparr> (init_state (\<lambda>_. Inl ShapeError) 0)))
     = [BufferPopulate, PopTotalRewards, PrintLine,
        WriterAddScalar ''epsilon'' (99999 / 100000) 1, WriterAddScalar ''speed'' (1 / 2) 1,
        WriterAddScalar ''reward_100'' 1 1, WriterAddScalar ''reward'' 1 1]
   \<and> \<not> list_ex is_training_call (drop (length (calls (init_state (\<lambda>_. Inl ShapeError) 0)))
        (calls (snd (iteration \<lparr>buffer_len = 9999, new_rewards = [1], clock1 = 2, clock2 = 3, sampled = [],
           stepped = (\<lambda>_. Inl ShapeError)\<rparr> (init_state (\<lambda>_. Inl ShapeError) 0)))))"
  using no_training_before_replay_start[of "\<lparr>buffer_len = 9999, new_rewards = [1], clock1 = 2, clock2 = 3, sampled = [],
           stepped = (\<lambda>_. Inl ShapeError)\<rparr>" "init_state (\<lambda>_. Inl ShapeError) 0"]
  by (simp add: iteration_def report_def init_state_def Let_def REPLAY_START_SIZE_def
       EPSILON_START_def EPSILON_FINAL_def EPSILON_DECAY_LAST_FRAME_def MEAN_REWARD_BOUND_def)

end
